theory Spec2Isabelle
  imports Complex_Main
begin

section \<open>MemoryVectorStore: data model\<close>

text \<open>
  A shallow embedding of \<^verbatim>\<open>src/memory-vector-store.ts\<close>.

  Numbers are modelled as \<^typ>\<open>real\<close> (exact arithmetic): the source computes on IEEE
  doubles, and rounding, overflow and underflow are outside this model. A division by
  zero is not: JavaScript computes NaN or an infinity there, and the model keeps that
  outcome apart from every real number (\<open>js_divide\<close> below).
  An optional field (\<^verbatim>\<open>metadata?\<close>, \<^verbatim>\<open>embedding?\<close>, \<^verbatim>\<open>topK?\<close>) is an \<^typ>\<open>'a option\<close>,
  \<^term>\<open>None\<close> standing for an absent (undefined) field.
  The metadata (\<^verbatim>\<open>Record<string, any>\<close>) is never inspected by the store and is a type
  parameter \<open>'m\<close>.
\<close>

text \<open>\<^verbatim>\<open>Omit<Document, 'embedding'>\<close>: the argument type of \<^verbatim>\<open>addDocument\<close>. The field
  \<^verbatim>\<open>id\<close> is named \<open>id_doc\<close>, as \<open>id\<close> is the identity function of HOL.\<close>

record 'm RawDocument =
  id_doc :: string
  content :: string
  metadata :: "'m option"

text \<open>\<^verbatim>\<open>interface Document\<close>: a raw document and its optional embedding.\<close>

record 'm Document = "'m RawDocument" +
  embedding :: "real list option"

text \<open>\<^verbatim>\<open>interface SearchResult\<close>.\<close>

record 'm SearchResult =
  document :: "'m Document"
  score :: real

text \<open>The options argument of both search methods; \<^verbatim>\<open>filter\<close> is named \<open>filter_fn\<close>.\<close>

record 'm SearchOptions =
  topK :: "int option"
  threshold :: "real option"
  filter_fn :: "('m Document \<Rightarrow> bool) option"

text \<open>\<^verbatim>\<open>interface MemoryVectorStoreConfig\<close>.\<close>

record MemoryVectorStoreConfig =
  apiKey :: "string option"
  embeddingModel_cfg :: "string option"
  dimension_cfg :: "nat option"

text \<open>
  The private fields of \<^verbatim>\<open>class MemoryVectorStore\<close>. The JavaScript \<^verbatim>\<open>Map\<close> of documents
  is an association list in insertion order (the order in which \<^verbatim>\<open>values()\<close> iterates).
  The OpenAI client is not a field: it is the embedding provider, a parameter of the
  operations that call it.
\<close>

record 'm MemoryVectorStore =
  documents :: "(string \<times> 'm Document) list"
  embeddingModel :: string
  dimension :: nat

text \<open>
  Every failure of the source is \<^verbatim>\<open>throw new Error(message)\<close>; the constructors stand for
  the messages:
  \<^item> \<open>ApiKeyRequired\<close>: "OpenAI API key is required. ..."
  \<^item> \<open>EmbeddingGenerationFailed m\<close>: "Failed to generate embedding: m"
  \<^item> \<open>VectorsSameLength\<close>: "Vectors must have the same length"
  \<^item> \<open>EmbeddingDimensionMismatch e g\<close>: "Embedding dimension mismatch: expected e, got g"
  \<^item> \<open>MustHaveEmbedding i\<close>: "Document i must have an embedding for import"

  \<open>NotANumber\<close> is no thrown \<^verbatim>\<open>Error\<close>: it is the outcome of a computation whose JavaScript
  result is NaN or an infinity, the result of a division by zero, which no real number
  of this model stands for.
\<close>

datatype error =
    ApiKeyRequired
  | EmbeddingGenerationFailed string
  | VectorsSameLength
  | EmbeddingDimensionMismatch nat nat
  | MustHaveEmbedding string
  | NotANumber

text \<open>
  The embedding provider (\<^verbatim>\<open>this.openai.embeddings.create\<close>): given the model, the input
  text and the state of the outside world \<open>'p\<close>, it fails with a message or returns a
  vector, and leaves the world in a new state. A call of the provider is visible as a
  step of the world's state.
\<close>

type_synonym 'p provider = "string \<Rightarrow> string \<Rightarrow> 'p \<Rightarrow> (string + real list) \<times> 'p"

section \<open>The JavaScript Map, Array.prototype.sort and slice\<close>

text \<open>\<^verbatim>\<open>Map.prototype.set\<close>: an existing key keeps its place and takes the new value;
  a new key is appended.\<close>

fun map_set :: "'k \<Rightarrow> 'v \<Rightarrow> ('k \<times> 'v) list \<Rightarrow> ('k \<times> 'v) list" where
  "map_set k v [] = [(k, v)]"
| "map_set k v ((k', v') # m) =
     (if k' = k then (k, v) # m else (k', v') # map_set k v m)"

text \<open>\<^verbatim>\<open>Map.prototype.get\<close>, \<^verbatim>\<open>has\<close>, \<^verbatim>\<open>delete\<close> (which returns whether the key was there),
  \<^verbatim>\<open>values\<close> and \<^verbatim>\<open>size\<close>.\<close>

fun map_get :: "('k \<times> 'v) list \<Rightarrow> 'k \<Rightarrow> 'v option" where
  "map_get [] k = None"
| "map_get ((k', v') # m) k = (if k' = k then Some v' else map_get m k)"

definition map_has :: "('k \<times> 'v) list \<Rightarrow> 'k \<Rightarrow> bool" where
  "map_has m k = (map_get m k \<noteq> None)"

fun map_remove :: "'k \<Rightarrow> ('k \<times> 'v) list \<Rightarrow> ('k \<times> 'v) list" where
  "map_remove k [] = []"
| "map_remove k ((k', v') # m) = (if k' = k then m else (k', v') # map_remove k m)"

definition map_delete :: "'k \<Rightarrow> ('k \<times> 'v) list \<Rightarrow> bool \<times> ('k \<times> 'v) list" where
  "map_delete k m = (map_has m k, map_remove k m)"

definition map_values :: "('k \<times> 'v) list \<Rightarrow> 'v list" where
  "map_values m = map snd m"

definition map_size :: "('k \<times> 'v) list \<Rightarrow> nat" where
  "map_size m = length m"

text \<open>
  \<^verbatim>\<open>results.sort((a, b) => b.score - a.score)\<close>: \<^verbatim>\<open>Array.prototype.sort\<close> is stable, so
  this is the stable sort by descending score: insertion of each element, from the last
  to the first, before the first element whose score is not greater.
\<close>

fun insert_by_score :: "'m SearchResult \<Rightarrow> 'm SearchResult list \<Rightarrow> 'm SearchResult list" where
  "insert_by_score r [] = [r]"
| "insert_by_score r (x # xs) =
     (if score x - score r \<le> 0 then r # x # xs else x # insert_by_score r xs)"

definition sort_by_score :: "'m SearchResult list \<Rightarrow> 'm SearchResult list" where
  "sort_by_score rs = foldr insert_by_score rs []"

text \<open>\<^verbatim>\<open>xs.slice(0, end)\<close> for an integer \<open>end\<close>: a negative \<open>end\<close> counts from the end of
  the array.\<close>

definition slice0 :: "'a list \<Rightarrow> int \<Rightarrow> 'a list" where
  "slice0 xs end =
     (let len = int (length xs);
          final = (if end < 0 then max (len + end) 0 else min end len)
      in take (nat final) xs)"

section \<open>The store\<close>

text \<open>
  The constructor. \<open>env\<close> is \<^verbatim>\<open>process.env.OPENAI_API_KEY\<close>. The operator \<^verbatim>\<open>||\<close> takes its
  right operand when the left one is absent or falsy: the empty string, the number 0.
\<close>

definition or_string :: "string option \<Rightarrow> string option \<Rightarrow> string option" where
  "or_string a b = (case a of None \<Rightarrow> b | Some s \<Rightarrow> if s = [] then b else Some s)"

definition new_MemoryVectorStore ::
  "MemoryVectorStoreConfig \<Rightarrow> string option \<Rightarrow> error + 'm MemoryVectorStore" where
  "new_MemoryVectorStore config env =
     (case or_string (apiKey config) env of
        None \<Rightarrow> Inl ApiKeyRequired
      | Some k \<Rightarrow>
          if k = [] then Inl ApiKeyRequired
          else Inr \<lparr> documents = [],
                     embeddingModel =
                       (case or_string (embeddingModel_cfg config) (Some ''text-embedding-3-small'') of
                          Some m \<Rightarrow> m | None \<Rightarrow> ''text-embedding-3-small''),
                     dimension =
                       (case dimension_cfg config of
                          None \<Rightarrow> 1536
                        | Some d \<Rightarrow> if d = 0 then 1536 else d) \<rparr>)"

text \<open>\<^verbatim>\<open>generateEmbedding\<close>: the provider's failure is caught and thrown again, wrapped.\<close>

definition generateEmbedding ::
  "'p provider \<Rightarrow> 'm MemoryVectorStore \<Rightarrow> string \<Rightarrow> 'p \<Rightarrow> (error + real list) \<times> 'p" where
  "generateEmbedding prov store input p =
     (case prov (embeddingModel store) input p of
        (Inl msg, p') \<Rightarrow> (Inl (EmbeddingGenerationFailed msg), p')
      | (Inr e, p') \<Rightarrow> (Inr e, p'))"

text \<open>
  \<^verbatim>\<open>addDocument\<close>. A failure of \<^verbatim>\<open>generateEmbedding\<close> leaves the store as it was. The
  result is the outcome, the store afterwards and the world afterwards.
\<close>

definition addDocument ::
  "'p provider \<Rightarrow> 'm MemoryVectorStore \<Rightarrow> 'm RawDocument \<Rightarrow> 'p
   \<Rightarrow> (error + 'm Document) \<times> 'm MemoryVectorStore \<times> 'p" where
  "addDocument prov store doc p =
     (case generateEmbedding prov store (content doc) p of
        (Inl e, p') \<Rightarrow> (Inl e, store, p')
      | (Inr emb, p') \<Rightarrow>
          (let fullDocument =
                 \<lparr> id_doc = id_doc doc, content = content doc, metadata = metadata doc,
                   embedding = Some emb \<rparr>
           in (Inr fullDocument,
               store\<lparr>documents := map_set (id_doc doc) fullDocument (documents store)\<rparr>,
               p')))"

text \<open>\<^verbatim>\<open>addDocuments\<close>: the loop \<^verbatim>\<open>for (const doc of documents)\<close> with its accumulator
  \<^verbatim>\<open>results\<close>; a failing \<^verbatim>\<open>addDocument\<close> ends it.\<close>

fun addDocuments_loop ::
  "'p provider \<Rightarrow> 'm MemoryVectorStore \<Rightarrow> 'm RawDocument list \<Rightarrow> 'm Document list \<Rightarrow> 'p
   \<Rightarrow> (error + 'm Document list) \<times> 'm MemoryVectorStore \<times> 'p" where
  "addDocuments_loop prov store [] results p = (Inr results, store, p)"
| "addDocuments_loop prov store (doc # rest) results p =
     (case addDocument prov store doc p of
        (Inl e, store', p') \<Rightarrow> (Inl e, store', p')
      | (Inr result, store', p') \<Rightarrow>
          addDocuments_loop prov store' rest (results @ [result]) p')"

definition addDocuments ::
  "'p provider \<Rightarrow> 'm MemoryVectorStore \<Rightarrow> 'm RawDocument list \<Rightarrow> 'p
   \<Rightarrow> (error + 'm Document list) \<times> 'm MemoryVectorStore \<times> 'p" where
  "addDocuments prov store docs p = addDocuments_loop prov store docs [] p"

definition getDocument :: "'m MemoryVectorStore \<Rightarrow> string \<Rightarrow> 'm Document option" where
  "getDocument store i = map_get (documents store) i"

definition getAllDocuments :: "'m MemoryVectorStore \<Rightarrow> 'm Document list" where
  "getAllDocuments store = map_values (documents store)"

definition deleteDocument :: "'m MemoryVectorStore \<Rightarrow> string \<Rightarrow> bool \<times> 'm MemoryVectorStore" where
  "deleteDocument store i =
     (case map_delete i (documents store) of
        (deleted, m) \<Rightarrow> (deleted, store\<lparr>documents := m\<rparr>))"

definition clear :: "'m MemoryVectorStore \<Rightarrow> 'm MemoryVectorStore" where
  "clear store = store\<lparr>documents := []\<rparr>"

text \<open>\<^verbatim>\<open>size\<close>, named \<open>size_store\<close> beside the \<open>size\<close> of HOL.\<close>

definition size_store :: "'m MemoryVectorStore \<Rightarrow> nat" where
  "size_store store = map_size (documents store)"

text \<open>
  \<^verbatim>\<open>cosineSimilarity\<close>. The loop over \<^verbatim>\<open>i = 0 .. a.length - 1\<close> carries the three
  accumulators \<^verbatim>\<open>dotProduct\<close>, \<^verbatim>\<open>magnitudeA\<close> and \<^verbatim>\<open>magnitudeB\<close>; it runs after the
  length check, so every index is in range for both arrays.
\<close>

definition cosine_step :: "real list \<Rightarrow> real list \<Rightarrow> nat \<Rightarrow> real \<times> real \<times> real \<Rightarrow> real \<times> real \<times> real" where
  "cosine_step a b i acc =
     (case acc of (dotProduct, magnitudeA, magnitudeB) \<Rightarrow>
        (dotProduct + a ! i * b ! i, magnitudeA + a ! i * a ! i, magnitudeB + b ! i * b ! i))"

text \<open>
  The quotient \<^verbatim>\<open>x / y\<close> of JavaScript, for numbers that are reals. With a denominator
  other than zero it is the quotient of the reals. With a zero denominator JavaScript
  returns NaN (for \<^verbatim>\<open>0 / 0\<close>) or an infinity, which is no real number: the quotient is
  \<^term>\<open>None\<close>, and not the 0 that the division of HOL gives.
\<close>

definition js_divide :: "real \<Rightarrow> real \<Rightarrow> real option" where
  "js_divide x y = (if y = 0 then None else Some (x / y))"

text \<open>
  \<^verbatim>\<open>cosineSimilarity\<close> itself: the length check, the loop, the two square roots, the
  guard \<^verbatim>\<open>if (magnitudeA === 0 || magnitudeB === 0) return 0\<close> and the quotient of the
  last line. A quotient that is no real number is the outcome \<open>NotANumber\<close>.
\<close>

definition cosineSimilarity :: "real list \<Rightarrow> real list \<Rightarrow> error + real" where
  "cosineSimilarity a b =
     (if length a \<noteq> length b then Inl VectorsSameLength
      else
        (case fold (cosine_step a b) [0..<length a] (0, 0, 0) of
           (dotProduct, sumA, sumB) \<Rightarrow>
             (let magnitudeA = sqrt sumA; magnitudeB = sqrt sumB
              in if magnitudeA = 0 \<or> magnitudeB = 0 then Inr 0
                 else (case js_divide dotProduct (magnitudeA * magnitudeB) of
                         None \<Rightarrow> Inl NotANumber
                       | Some similarity \<Rightarrow> Inr similarity))))"

section \<open>Search\<close>

text \<open>The defaults of the destructuring \<^verbatim>\<open>{ topK = 5, threshold = 0, filter } = options\<close>.\<close>

definition topK_of :: "'m SearchOptions \<Rightarrow> int" where
  "topK_of options = (case topK options of None \<Rightarrow> 5 | Some k \<Rightarrow> k)"

definition threshold_of :: "'m SearchOptions \<Rightarrow> real" where
  "threshold_of options = (case threshold options of None \<Rightarrow> 0 | Some t \<Rightarrow> t)"

text \<open>\<^verbatim>\<open>filter && !filter(doc)\<close> is false when no filter is given.\<close>

definition rejected :: "('m Document \<Rightarrow> bool) option \<Rightarrow> 'm Document \<Rightarrow> bool" where
  "rejected f doc = (case f of None \<Rightarrow> False | Some g \<Rightarrow> \<not> g doc)"

text \<open>The line that \<^verbatim>\<open>console.warn\<close> prints for a document without an embedding.\<close>

definition no_embedding_warning :: "'m Document \<Rightarrow> string" where
  "no_embedding_warning doc = ''Document '' @ id_doc doc @ '' has no embedding, skipping''"

text \<open>
  The loop \<^verbatim>\<open>for (const doc of this.documents.values())\<close>, which the two search methods
  have word for word (lines 254 to 274 and 309 to 327). It carries the array \<^verbatim>\<open>results\<close>
  and the lines warned so far; a failure of \<^verbatim>\<open>cosineSimilarity\<close> ends it, the lines
  warned before staying printed.
\<close>

fun score_loop ::
  "real list \<Rightarrow> real \<Rightarrow> ('m Document \<Rightarrow> bool) option \<Rightarrow> 'm Document list
   \<Rightarrow> 'm SearchResult list \<Rightarrow> string list \<Rightarrow> string list \<times> (error + 'm SearchResult list)" where
  "score_loop q t f [] results warned = (warned, Inr results)"
| "score_loop q t f (doc # rest) results warned =
     (if rejected f doc then score_loop q t f rest results warned
      else
        (case embedding doc of
           None \<Rightarrow> score_loop q t f rest results (warned @ [no_embedding_warning doc])
         | Some e \<Rightarrow>
             (case cosineSimilarity q e of
                Inl err \<Rightarrow> (warned, Inl err)
              | Inr s \<Rightarrow>
                  if s \<ge> t
                  then score_loop q t f rest (results @ [\<lparr>document = doc, score = s\<rparr>]) warned
                  else score_loop q t f rest results warned)))"

text \<open>What both methods do after the loop: \<^verbatim>\<open>results.sort(...).slice(0, topK)\<close>.\<close>

definition rank :: "'m SearchResult list \<Rightarrow> int \<Rightarrow> 'm SearchResult list" where
  "rank results k = slice0 (sort_by_score results) k"

text \<open>\<^verbatim>\<open>similaritySearch\<close>. The result is the lines warned, the outcome, and the world
  afterwards.\<close>

definition similaritySearch ::
  "'p provider \<Rightarrow> 'm MemoryVectorStore \<Rightarrow> string \<Rightarrow> 'm SearchOptions \<Rightarrow> 'p
   \<Rightarrow> (string list \<times> (error + 'm SearchResult list)) \<times> 'p" where
  "similaritySearch prov store query options p =
     (if map_size (documents store) = 0 then (([], Inr []), p)
      else
        (case generateEmbedding prov store query p of
           (Inl e, p') \<Rightarrow> (([], Inl e), p')
         | (Inr queryEmbedding, p') \<Rightarrow>
             (case score_loop queryEmbedding (threshold_of options) (filter_fn options)
                     (map_values (documents store)) [] [] of
                (warned, Inl e) \<Rightarrow> ((warned, Inl e), p')
              | (warned, Inr results) \<Rightarrow>
                  ((warned, Inr (rank results (topK_of options))), p'))))"

text \<open>\<^verbatim>\<open>similaritySearchByVector\<close>: the check of the store's size comes first, the check of
  the dimension second.\<close>

definition similaritySearchByVector ::
  "'m MemoryVectorStore \<Rightarrow> real list \<Rightarrow> 'm SearchOptions
   \<Rightarrow> string list \<times> (error + 'm SearchResult list)" where
  "similaritySearchByVector store emb options =
     (if map_size (documents store) = 0 then ([], Inr [])
      else if length emb \<noteq> dimension store
      then ([], Inl (EmbeddingDimensionMismatch (dimension store) (length emb)))
      else
        (case score_loop emb (threshold_of options) (filter_fn options)
                (map_values (documents store)) [] [] of
           (warned, Inl e) \<Rightarrow> (warned, Inl e)
         | (warned, Inr results) \<Rightarrow> (warned, Inr (rank results (topK_of options)))))"

section \<open>Export and import\<close>

definition export :: "'m MemoryVectorStore \<Rightarrow> 'm Document list" where
  "export store = getAllDocuments store"

text \<open>\<^verbatim>\<open>import\<close>: the loop sets each document in turn; a document without an embedding
  ends it, the documents set before staying in the store.\<close>

fun "import" :: "'m MemoryVectorStore \<Rightarrow> 'm Document list \<Rightarrow> (error + unit) \<times> 'm MemoryVectorStore" where
  "import store [] = (Inr (), store)"
| "import store (doc # rest) =
     (case embedding doc of
        None \<Rightarrow> (Inl (MustHaveEmbedding (id_doc doc)), store)
      | Some e \<Rightarrow> import (store\<lparr>documents := map_set (id_doc doc) doc (documents store)\<rparr>) rest)"

section \<open>Sequences of mutating operations\<close>

text \<open>
  The mutating operations of the class, and a run of a sequence of them: each operation
  acts on the store the one before left, whether that one failed or not. The provider
  and the world's state are arbitrary, so a run stands for every behaviour of the
  provider, also one that other calls in between have changed.
\<close>

datatype 'm operation =
    AddDocument "'m RawDocument"
  | AddDocuments "'m RawDocument list"
  | Import "'m Document list"
  | DeleteDocument string
  | Clear

fun apply_operation ::
  "'p provider \<Rightarrow> 'm operation \<Rightarrow> 'm MemoryVectorStore \<times> 'p \<Rightarrow> 'm MemoryVectorStore \<times> 'p" where
  "apply_operation prov (AddDocument doc) (store, p) = snd (addDocument prov store doc p)"
| "apply_operation prov (AddDocuments docs) (store, p) = snd (addDocuments prov store docs p)"
| "apply_operation prov (Import docs) (store, p) = (snd (import store docs), p)"
| "apply_operation prov (DeleteDocument i) (store, p) = (snd (deleteDocument store i), p)"
| "apply_operation prov Clear (store, p) = (clear store, p)"

definition run :: "'p provider \<Rightarrow> 'm operation list \<Rightarrow> 'm MemoryVectorStore \<times> 'p \<Rightarrow> 'm MemoryVectorStore \<times> 'p" where
  "run prov ops sp = fold (apply_operation prov) ops sp"

text \<open>The Euclidean norm of a vector, as mathematics defines it: the notion of
  magnitude the specification speaks of.\<close>

definition euclidean_norm :: "real list \<Rightarrow> real" where
  "euclidean_norm v = sqrt (\<Sum>x\<leftarrow>v. x * x)"

section \<open>Invariants of the store\<close>

text \<open>Every resident document has an embedding; every resident document has an
  embedding of the store's dimension.\<close>

definition all_embedded :: "'m MemoryVectorStore \<Rightarrow> bool" where
  "all_embedded store = list_all (\<lambda>d. embedding d \<noteq> None) (getAllDocuments store)"

definition has_dimension :: "nat \<Rightarrow> 'm Document \<Rightarrow> bool" where
  "has_dimension n d = (case embedding d of None \<Rightarrow> False | Some e \<Rightarrow> length e = n)"

definition all_of_dimension :: "'m MemoryVectorStore \<Rightarrow> bool" where
  "all_of_dimension store = list_all (has_dimension (dimension store)) (getAllDocuments store)"

text \<open>The provider keeps its contract when every vector it returns has the given
  length; a sequence of operations imports conforming documents when every embedding
  it imports has the given length.\<close>

definition provider_conforms :: "'p provider \<Rightarrow> nat \<Rightarrow> bool" where
  "provider_conforms prov n =
     (\<forall>m t q. case fst (prov m t q) of Inl msg \<Rightarrow> True | Inr e \<Rightarrow> length e = n)"

definition import_conforms :: "nat \<Rightarrow> 'm operation \<Rightarrow> bool" where
  "import_conforms n op =
     (case op of
        Import docs \<Rightarrow> list_all (\<lambda>d. case embedding d of None \<Rightarrow> True | Some e \<Rightarrow> length e = n) docs
      | _ \<Rightarrow> True)"

definition imports_conform :: "nat \<Rightarrow> 'm operation list \<Rightarrow> bool" where
  "imports_conform n ops = list_all (import_conforms n) ops"

text \<open>
  The invariant of the \<^verbatim>\<open>Map\<close> that the proofs carry through the operations: the keys
  are distinct and every bound pair has the property \<open>P\<close>; \<open>provider_ok\<close> and \<open>import_ok\<close>
  say that what \<^verbatim>\<open>addDocument\<close> builds and what \<^verbatim>\<open>import\<close> sets have the property.
\<close>

definition pairs_ok :: "(string \<times> 'm Document \<Rightarrow> bool) \<Rightarrow> 'm MemoryVectorStore \<Rightarrow> bool" where
  "pairs_ok P store =
     (distinct (map fst (documents store)) \<and> (\<forall>kd\<in>set (documents store). P kd))"

definition provider_ok :: "(string \<times> 'm Document \<Rightarrow> bool) \<Rightarrow> 'p provider \<Rightarrow> bool" where
  "provider_ok P prov =
     (\<forall>(doc :: 'm RawDocument) emb m t q q'. prov m t q = (Inr emb, q') \<longrightarrow>
        P (id_doc doc, \<lparr>id_doc = id_doc doc, content = content doc, metadata = metadata doc,
                        embedding = Some emb\<rparr>))"

definition import_ok :: "(string \<times> 'm Document \<Rightarrow> bool) \<Rightarrow> 'm operation \<Rightarrow> bool" where
  "import_ok P op =
     (\<forall>docs d. op = Import docs \<longrightarrow> d \<in> set docs \<longrightarrow> embedding d \<noteq> None \<longrightarrow> P (id_doc d, d))"

definition keyed_embedded :: "string \<times> 'm Document \<Rightarrow> bool" where
  "keyed_embedded kd = (fst kd = id_doc (snd kd) \<and> embedding (snd kd) \<noteq> None)"

definition has_dim :: "nat \<Rightarrow> string \<times> 'm Document \<Rightarrow> bool" where
  "has_dim n kd = has_dimension n (snd kd)"


section \<open>Example stores\<close>

text \<open>Concrete documents, stores, options and providers, at which the theorems below are
  evaluated. Both providers count their calls in the world's state.\<close>

definition default_options :: "'m SearchOptions" where
  "default_options = \<lparr>topK = None, threshold = None, filter_fn = None\<rparr>"

definition doc_east :: "string Document" where
  "doc_east = \<lparr>id_doc = ''east'', content = ''sunrise'', metadata = Some ''compass'', embedding = Some [1]\<rparr>"

definition doc_west :: "string Document" where
  "doc_west = \<lparr>id_doc = ''west'', content = ''sunset'', metadata = None, embedding = Some [-1]\<rparr>"

definition doc_bare :: "string Document" where
  "doc_bare = \<lparr>id_doc = ''bare'', content = ''draft'', metadata = None, embedding = None\<rparr>"

definition line_store :: "string MemoryVectorStore" where
  "line_store = \<lparr>documents = [(''east'', doc_east), (''west'', doc_west)],
                  embeddingModel = ''text-embedding-3-small'', dimension = 1\<rparr>"

definition bare_store :: "string MemoryVectorStore" where
  "bare_store = \<lparr>documents = [(''bare'', doc_bare), (''east'', doc_east)],
                  embeddingModel = ''text-embedding-3-small'', dimension = 1\<rparr>"

definition empty_store :: "string MemoryVectorStore" where
  "empty_store = \<lparr>documents = [], embeddingModel = ''text-embedding-3-small'', dimension = 2\<rparr>"

definition failing_provider :: "nat provider" where
  "failing_provider model input calls = (Inl ''quota exceeded'', Suc calls)"

definition unit_provider :: "nat provider" where
  "unit_provider model input calls = (Inr [1], Suc calls)"

definition line_config :: MemoryVectorStoreConfig where
  "line_config = \<lparr>apiKey = Some ''key'', embeddingModel_cfg = None, dimension_cfg = Some 1\<rparr>"

definition fresh_line_store :: "string MemoryVectorStore" where
  "fresh_line_store = \<lparr>documents = [], embeddingModel = ''text-embedding-3-small'', dimension = 1\<rparr>"

definition raw_north :: "string RawDocument" where
  "raw_north = \<lparr>id_doc = ''north'', content = ''pole star'', metadata = None\<rparr>"


definition raw_south :: "string RawDocument" where
  "raw_south = \<lparr>id_doc = ''south'', content = ''cross'', metadata = Some ''compass''\<rparr>"


definition doc_south :: "string Document" where
  "doc_south = \<lparr>id_doc = ''south'', content = ''cross'', metadata = Some ''compass'', embedding = Some [1]\<rparr>"


definition west_south_store :: "string MemoryVectorStore" where
  "west_south_store = \<lparr>documents = [(''west'', doc_west), (''south'', doc_south)],
                        embeddingModel = ''text-embedding-3-small'', dimension = 1\<rparr>"


definition line_ops :: "string operation list" where
  "line_ops = [AddDocument raw_north, Import [doc_west], DeleteDocument ''north'',
               AddDocuments [raw_south]]"

section \<open>Properties of cosineSimilarity\<close>

lemma cosine_fold:
  "n \<le> length a \<Longrightarrow> n \<le> length b \<Longrightarrow>
   fold (cosine_step a b) [0..<n] (d, ma, mb) =
     (d + (\<Sum>i<n. a ! i * b ! i), ma + (\<Sum>i<n. a ! i * a ! i), mb + (\<Sum>i<n. b ! i * b ! i))"
  by (induction n) (simp_all add: cosine_step_def)

lemma sum_squares_nth: "(\<Sum>i<length v. v ! i * v ! i) = (\<Sum>x\<leftarrow>v. x * (x::real))"
proof -
  have "(\<Sum>x\<leftarrow>v. x * x) = (\<Sum>i = 0..<length v. v ! i * v ! i)"
    by (simp add: sum_list_sum_nth)
  then show ?thesis
    by (simp add: atLeast0LessThan)
qed

lemma cosine_unfold:
  assumes "length a = length b"
  shows "cosineSimilarity a b =
    (if euclidean_norm a = 0 \<or> euclidean_norm b = 0 then Inr 0
     else Inr ((\<Sum>i<length a. a ! i * b ! i) / (euclidean_norm a * euclidean_norm b)))"
proof -
  have "fold (cosine_step a b) [0..<length a] (0, 0, 0) =
      ((\<Sum>i<length a. a ! i * b ! i), (\<Sum>x\<leftarrow>a. x * x), (\<Sum>x\<leftarrow>b. x * x))"
    using assms cosine_fold [of "length a" a b 0 0 0] sum_squares_nth [of a] sum_squares_nth [of b]
    by simp
  then show ?thesis
    using assms by (simp add: cosineSimilarity_def euclidean_norm_def js_divide_def)
qed

lemma sum_squares_zero: "(\<forall>x\<in>set v. x = 0) \<Longrightarrow> (\<Sum>x\<leftarrow>v. x * (x::real)) = 0"
  by (induction v) simp_all

text \<open>
  C7. For vectors \<open>a\<close> and \<open>b\<close> of equal length, if \<open>a\<close> or \<open>b\<close> has zero magnitude then
  \<open>cosineSimilarity a b\<close> returns 0 (it does not fail), where the quotient by the product
  of the magnitudes would be no number: the guard returns before the division by zero.
  In particular this is so when every component of \<open>a\<close> is zero, whatever \<open>b\<close> is.
\<close>

theorem cosineSimilarity_zero_magnitude:
  assumes "length a = length b"
  shows "(euclidean_norm a = 0 \<or> euclidean_norm b = 0 \<longrightarrow>
            cosineSimilarity a b = Inr 0
          \<and> js_divide d (euclidean_norm a * euclidean_norm b) = None)
       \<and> ((\<forall>x\<in>set a. x = 0) \<longrightarrow> cosineSimilarity a b = Inr 0)"
proof -
  have "(\<forall>x\<in>set a. x = 0) \<longrightarrow> euclidean_norm a = 0"
    by (simp add: euclidean_norm_def sum_squares_zero)
  moreover have "euclidean_norm a = 0 \<or> euclidean_norm b = 0 \<longrightarrow>
      js_divide d (euclidean_norm a * euclidean_norm b) = None"
    by (auto simp: js_divide_def)
  ultimately show ?thesis
    using assms by (auto simp: cosine_unfold)
qed

theorem cosineSimilarity_zero_magnitude_witness:
  "length [0, 0 :: real] = length [3, -4 :: real]
   \<and> euclidean_norm [0, 0] = 0
   \<and> cosineSimilarity [0, 0] [3, -4] = Inr 0
   \<and> js_divide 0 (euclidean_norm [0, 0] * euclidean_norm [3, -4]) = None"
  using cosineSimilarity_zero_magnitude [of "[0, 0]" "[3, -4]" 0]
  by (simp add: euclidean_norm_def)

text \<open>
  C10. \<open>cosineSimilarity\<close> is symmetric: for vectors of equal length, both orders of the
  arguments return the same score.
\<close>

theorem cosineSimilarity_symmetric:
  assumes "length a = length b"
  shows "\<exists>s. cosineSimilarity a b = Inr s \<and> cosineSimilarity b a = Inr s"
proof -
  have "(\<Sum>i<length a. a ! i * b ! i) = (\<Sum>i<length b. b ! i * a ! i)"
    using assms by (simp add: mult.commute)
  then show ?thesis
    using assms cosine_unfold [of a b] cosine_unfold [of b a]
    by (auto simp: mult.commute)
qed

theorem cosineSimilarity_symmetric_witness:
  "length [1, 0 :: real] = length [0, 1 :: real]
   \<and> cosineSimilarity [1, 0] [0, 1] = Inr 0
   \<and> cosineSimilarity [0, 1] [1, 0] = Inr 0"
proof -
  have "cosineSimilarity [1, 0] [0, 1] = Inr 0"
    by (simp add: cosineSimilarity_def cosine_step_def js_divide_def)
  then show ?thesis
    using cosineSimilarity_symmetric [of "[1, 0]" "[0, 1]"] by simp
qed

section \<open>Sorting and slicing\<close>

lemma set_insert_by_score: "set (insert_by_score r xs) = insert r (set xs)"
  by (induction xs) auto

lemma length_insert_by_score: "length (insert_by_score r xs) = Suc (length xs)"
  by (induction xs) auto

lemma sorted_insert_by_score:
  "sorted_wrt (\<lambda>a b. score a \<ge> score b) xs \<Longrightarrow>
   sorted_wrt (\<lambda>a b. score a \<ge> score b) (insert_by_score r xs)"
  by (induction xs) (auto simp: set_insert_by_score)

lemma set_sort_by_score: "set (sort_by_score rs) = set rs"
  by (induction rs) (simp_all add: sort_by_score_def set_insert_by_score)

lemma sorted_sort_by_score: "sorted_wrt (\<lambda>a b. score a \<ge> score b) (sort_by_score rs)"
  by (induction rs) (simp_all add: sort_by_score_def sorted_insert_by_score)

lemma set_slice0: "set (slice0 xs k) \<subseteq> set xs"
  by (simp add: slice0_def Let_def set_take_subset)

lemma length_slice0: "0 \<le> k \<Longrightarrow> int (length (slice0 xs k)) \<le> k"
  by (simp add: slice0_def Let_def)

lemma sorted_slice0: "sorted_wrt P xs \<Longrightarrow> sorted_wrt P (slice0 xs k)"
  by (simp add: slice0_def Let_def)

lemma rank_sorted: "sorted_wrt (\<lambda>a b. score a \<ge> score b) (rank rs k)"
  by (simp add: rank_def sorted_slice0 sorted_sort_by_score)

lemma rank_length: "0 \<le> k \<Longrightarrow> int (length (rank rs k)) \<le> k"
  by (simp add: rank_def length_slice0)

lemma rank_subset: "set (rank rs k) \<subseteq> set rs"
  using set_slice0 [of "sort_by_score rs" k] by (simp add: rank_def set_sort_by_score)

section \<open>The scoring loop\<close>

lemma SearchResult_eq_iff:
  "(r = \<lparr>document = d, score = s\<rparr>) = (document r = d \<and> score r = s)"
  by (cases r) auto

lemma score_loop_mem:
  "score_loop q t f docs results warned = (w, Inr rs) \<Longrightarrow>
   (r \<in> set rs) =
     (r \<in> set results \<or>
      (document r \<in> set docs \<and> \<not> rejected f (document r)
        \<and> (\<exists>e. embedding (document r) = Some e \<and> cosineSimilarity q e = Inr (score r))
        \<and> t \<le> score r))"
proof (induction docs arbitrary: results warned)
  case Nil
  then show ?case by simp
next
  case (Cons doc rest)
  show ?case
  proof (cases "rejected f doc")
    case True
    with Cons.prems have "score_loop q t f rest results warned = (w, Inr rs)"
      by simp
    from Cons.IH [OF this] True show ?thesis
      by (simp only: set_simps insert_iff) blast
  next
    case nr: False
    show ?thesis
    proof (cases "embedding doc")
      case None
      with nr Cons.prems
      have "score_loop q t f rest results (warned @ [no_embedding_warning doc]) = (w, Inr rs)"
        by simp
      from Cons.IH [OF this] None show ?thesis
        by (simp only: set_simps insert_iff) (metis option.distinct(1))
    next
      case (Some e)
      show ?thesis
      proof (cases "cosineSimilarity q e")
        case (Inl err)
        with nr Some Cons.prems show ?thesis by simp
      next
        case (Inr s)
        show ?thesis
        proof (cases "t \<le> s")
          case True
          with nr Some Inr Cons.prems
          have "score_loop q t f rest (results @ [\<lparr>document = doc, score = s\<rparr>]) warned = (w, Inr rs)"
            by simp
          from Cons.IH [OF this]
          have "(r \<in> set rs) =
             ((r \<in> set results \<or> (document r = doc \<and> score r = s)) \<or>
              (document r \<in> set rest \<and> \<not> rejected f (document r)
                \<and> (\<exists>e. embedding (document r) = Some e \<and> cosineSimilarity q e = Inr (score r))
                \<and> t \<le> score r))"
            by (simp add: SearchResult_eq_iff) blast
          with nr Some Inr True show ?thesis
            by (simp only: set_simps insert_iff) (metis option.inject sum.inject(2))
        next
          case False
          with nr Some Inr Cons.prems
          have "score_loop q t f rest results warned = (w, Inr rs)"
            by simp
          from Cons.IH [OF this] Some Inr False show ?thesis
            by (simp only: set_simps insert_iff) (metis option.inject sum.inject(2))
        qed
      qed
    qed
  qed
qed

section \<open>The search methods\<close>

lemma cos_1_1: "cosineSimilarity [1] [1] = Inr 1"
  by (simp add: cosineSimilarity_def cosine_step_def js_divide_def)

lemma cos_1_m1: "cosineSimilarity [1] [-1] = Inr (-1)"
  by (simp add: cosineSimilarity_def cosine_step_def js_divide_def)

text \<open>
  C1, as amended. For a query vector whose length differs from the store's dimension,
  \<open>similaritySearchByVector\<close> fails with the dimension mismatch before it scans any
  document (nothing is warned) whenever the store holds at least one document; on a store
  that holds no document it returns the empty sequence, the check of the size coming
  first.
\<close>

theorem searchByVector_dimension_check:
  assumes "length emb \<noteq> dimension store"
  shows "similaritySearchByVector store emb options =
    (if size_store store = 0 then ([], Inr [])
     else ([], Inl (EmbeddingDimensionMismatch (dimension store) (length emb))))"
  using assms by (simp add: similaritySearchByVector_def size_store_def)

theorem searchByVector_dimension_check_witness:
  "length [1, 0 :: real] \<noteq> dimension bare_store
   \<and> size_store bare_store = 2
   \<and> similaritySearchByVector bare_store [1, 0] default_options =
       ([], Inl (EmbeddingDimensionMismatch 1 2))"
  using searchByVector_dimension_check [of "[1, 0]" bare_store default_options]
  by (simp add: bare_store_def size_store_def map_size_def)

text \<open>
  C1 as stated fails on the empty store: a freshly constructed store of dimension 2,
  searched with a vector of length 1, returns the empty sequence and no failure.
\<close>

theorem searchByVector_empty_store_counterexample:
  "new_MemoryVectorStore \<lparr>apiKey = Some ''key'', embeddingModel_cfg = None, dimension_cfg = Some 2\<rparr> None
     = Inr empty_store
   \<and> length [1 :: real] \<noteq> dimension empty_store
   \<and> similaritySearchByVector empty_store [1] default_options = ([], Inr [])"
  by (simp add: new_MemoryVectorStore_def or_string_def empty_store_def
      similaritySearchByVector_def map_size_def)

text \<open>
  C9. On a store that holds no document, \<open>similaritySearch\<close> returns the empty sequence,
  for every query and every options: it does not fail, warns nothing and leaves the world
  as it was, so the provider is not called, whatever the provider would have done.
\<close>

theorem similaritySearch_empty_store:
  assumes "size_store store = 0"
  shows "similaritySearch prov store query options p = (([], Inr []), p)"
  using assms by (simp add: similaritySearch_def size_store_def)

theorem similaritySearch_empty_store_witness:
  "size_store empty_store = 0
   \<and> similaritySearch failing_provider empty_store ''anything'' default_options 0 = (([], Inr []), 0)
   \<and> similaritySearch failing_provider line_store ''anything'' default_options 0 =
       (([], Inl (EmbeddingGenerationFailed ''quota exceeded'')), 1)"
proof -
  have e: "size_store empty_store = 0"
    by (simp add: size_store_def map_size_def empty_store_def)
  have "similaritySearch failing_provider line_store ''anything'' default_options 0 =
       (([], Inl (EmbeddingGenerationFailed ''quota exceeded'')), 1)"
    by (simp add: similaritySearch_def generateEmbedding_def failing_provider_def line_store_def
        map_size_def)
  then show ?thesis
    using e similaritySearch_empty_store [OF e, of failing_provider "''anything''" default_options 0]
    by simp
qed

lemma line_search:
  "similaritySearchByVector line_store [1] \<lparr>topK = Some 1, threshold = Some (-1), filter_fn = None\<rparr>
     = ([], Inr [\<lparr>document = doc_east, score = 1\<rparr>])"
  by (simp add: similaritySearchByVector_def line_store_def map_size_def map_values_def
      threshold_of_def topK_of_def rejected_def doc_east_def doc_west_def cos_1_1 cos_1_m1
      rank_def sort_by_score_def slice0_def)

lemma line_search_text:
  "similaritySearch unit_provider line_store ''dawn'' \<lparr>topK = Some 5, threshold = Some (-1), filter_fn = None\<rparr> 0
     = (([], Inr [\<lparr>document = doc_east, score = 1\<rparr>, \<lparr>document = doc_west, score = -1\<rparr>]), 1)"
  by (simp add: similaritySearch_def generateEmbedding_def unit_provider_def line_store_def map_size_def map_values_def
      threshold_of_def topK_of_def rejected_def doc_east_def doc_west_def cos_1_1 cos_1_m1
      rank_def sort_by_score_def slice0_def)

lemma bare_search:
  "similaritySearchByVector bare_store [1] default_options
     = ([''Document bare has no embedding, skipping''], Inr [\<lparr>document = doc_east, score = 1\<rparr>])"
  by (simp add: similaritySearchByVector_def bare_store_def map_size_def map_values_def default_options_def
      threshold_of_def topK_of_def rejected_def doc_east_def doc_bare_def cos_1_1 cos_1_m1
      rank_def sort_by_score_def slice0_def no_embedding_warning_def)

lemma searchByVector_Inr:
  assumes "similaritySearchByVector store emb options = (w, Inr rs)"
  shows "\<exists>cands. rs = rank cands (topK_of options) \<and>
     (\<forall>r. (r \<in> set cands) =
        (document r \<in> set (getAllDocuments store) \<and> \<not> rejected (filter_fn options) (document r)
         \<and> (\<exists>e. embedding (document r) = Some e \<and> cosineSimilarity emb e = Inr (score r))
         \<and> threshold_of options \<le> score r))"
proof (cases "map_size (documents store) = 0")
  case True
  with assms have "rs = []"
    by (simp add: similaritySearchByVector_def)
  moreover from True have "getAllDocuments store = []"
    by (simp add: getAllDocuments_def map_values_def map_size_def)
  ultimately have "rs = rank [] (topK_of options) \<and>
     (\<forall>r. (r \<in> set []) =
        (document r \<in> set (getAllDocuments store) \<and> \<not> rejected (filter_fn options) (document r)
         \<and> (\<exists>e. embedding (document r) = Some e \<and> cosineSimilarity emb e = Inr (score r))
         \<and> threshold_of options \<le> score r))"
    by (simp add: rank_def slice0_def sort_by_score_def)
  then show ?thesis by blast
next
  case False
  obtain w' out where sl: "score_loop emb (threshold_of options) (filter_fn options)
       (map_values (documents store)) [] [] = (w', out)"
    by (cases "score_loop emb (threshold_of options) (filter_fn options)
       (map_values (documents store)) [] []") auto
  from assms False sl obtain cands where c: "out = Inr cands" "rs = rank cands (topK_of options)"
    by (cases out) (auto simp: similaritySearchByVector_def split: if_splits)
  from sl c(1) have "\<forall>r. (r \<in> set cands) =
        (document r \<in> set (getAllDocuments store) \<and> \<not> rejected (filter_fn options) (document r)
         \<and> (\<exists>e. embedding (document r) = Some e \<and> cosineSimilarity emb e = Inr (score r))
         \<and> threshold_of options \<le> score r)"
    using score_loop_mem [of emb "threshold_of options" "filter_fn options"
        "map_values (documents store)" "[]" "[]" w' cands]
    by (simp add: getAllDocuments_def)
  with c(2) show ?thesis by blast
qed

lemma search_Inr:
  assumes "similaritySearch prov store query options p = ((w, Inr rs), p')"
  shows "\<exists>cands. rs = rank cands (topK_of options) \<and>
     (\<forall>r. (r \<in> set cands) =
        (document r \<in> set (getAllDocuments store) \<and> \<not> rejected (filter_fn options) (document r)
         \<and> (\<exists>q e. generateEmbedding prov store query p = (Inr q, p')
                \<and> embedding (document r) = Some e \<and> cosineSimilarity q e = Inr (score r))
         \<and> threshold_of options \<le> score r))"
proof (cases "map_size (documents store) = 0")
  case True
  with assms have "rs = []"
    by (simp add: similaritySearch_def)
  moreover from True have "getAllDocuments store = []"
    by (simp add: getAllDocuments_def map_values_def map_size_def)
  ultimately have "rs = rank [] (topK_of options) \<and>
     (\<forall>r. (r \<in> set []) =
        (document r \<in> set (getAllDocuments store) \<and> \<not> rejected (filter_fn options) (document r)
         \<and> (\<exists>q e. generateEmbedding prov store query p = (Inr q, p')
                \<and> embedding (document r) = Some e \<and> cosineSimilarity q e = Inr (score r))
         \<and> threshold_of options \<le> score r))"
    by (simp add: rank_def slice0_def sort_by_score_def)
  then show ?thesis by blast
next
  case False
  obtain g p1 where g: "generateEmbedding prov store query p = (g, p1)"
    by (cases "generateEmbedding prov store query p") auto
  from assms False g obtain q where q: "g = Inr q"
    by (cases g) (auto simp: similaritySearch_def)
  obtain w' out where sl: "score_loop q (threshold_of options) (filter_fn options)
       (map_values (documents store)) [] [] = (w', out)"
    by (cases "score_loop q (threshold_of options) (filter_fn options)
       (map_values (documents store)) [] []") auto
  from assms False g q sl obtain cands where c: "out = Inr cands" "rs = rank cands (topK_of options)" "p1 = p'"
    by (cases out) (auto simp: similaritySearch_def)
  from sl c(1) have "\<forall>r. (r \<in> set cands) =
        (document r \<in> set (getAllDocuments store) \<and> \<not> rejected (filter_fn options) (document r)
         \<and> (\<exists>e. embedding (document r) = Some e \<and> cosineSimilarity q e = Inr (score r))
         \<and> threshold_of options \<le> score r)"
    using score_loop_mem [of q "threshold_of options" "filter_fn options"
        "map_values (documents store)" "[]" "[]" w' cands]
    by (simp add: getAllDocuments_def)
  with g q c(3) have "\<forall>r. (r \<in> set cands) =
        (document r \<in> set (getAllDocuments store) \<and> \<not> rejected (filter_fn options) (document r)
         \<and> (\<exists>q e. generateEmbedding prov store query p = (Inr q, p')
                \<and> embedding (document r) = Some e \<and> cosineSimilarity q e = Inr (score r))
         \<and> threshold_of options \<le> score r)"
    by simp
  with c(2) show ?thesis by blast
qed

lemma searchByVector_is_rank:
  "similaritySearchByVector store emb options = (w, Inr rs) \<Longrightarrow>
   \<exists>cands. rs = rank cands (topK_of options)"
  using searchByVector_Inr [of store emb options w rs] by blast

lemma search_is_rank:
  "similaritySearch prov store query options p = ((w, Inr rs), p') \<Longrightarrow>
   \<exists>cands. rs = rank cands (topK_of options)"
  using search_Inr [of prov store query options p w rs p'] by blast

text \<open>
  C5. The results of either search method are in non-increasing order of score, and
  there are at most \<open>topK\<close> of them (at most 5 when \<open>topK\<close> is omitted). The bound is
  stated for the values of \<open>topK\<close> the specification allows, the non-negative ones: the
  source hands \<open>topK\<close> to \<^verbatim>\<open>slice\<close>, which reads a negative end from the end of the array.
\<close>

theorem search_results_ranked:
  assumes "similaritySearchByVector store emb options = (w, Inr rs)
         \<or> similaritySearch prov store query options p = ((w, Inr rs), p')"
  shows "sorted_wrt (\<lambda>a b. score a \<ge> score b) rs
       \<and> (0 \<le> topK_of options \<longrightarrow> int (length rs) \<le> topK_of options)
       \<and> (topK options = None \<longrightarrow> length rs \<le> 5)"
proof -
  from assms obtain cands where rs: "rs = rank cands (topK_of options)"
    using searchByVector_is_rank [of store emb options w rs]
      search_is_rank [of prov store query options p w rs p'] by blast
  have "topK options = None \<longrightarrow> length rs \<le> 5"
    using rank_length [of 5 cands] rs by (auto simp: topK_of_def)
  then show ?thesis
    using rs rank_sorted [of cands "topK_of options"] rank_length [of "topK_of options" cands]
    by simp
qed

theorem search_results_ranked_witness:
  "similaritySearchByVector line_store [1] \<lparr>topK = Some 1, threshold = Some (-1), filter_fn = None\<rparr>
     = ([], Inr [\<lparr>document = doc_east, score = 1\<rparr>])
   \<and> similaritySearch unit_provider line_store ''dawn''
        \<lparr>topK = Some 5, threshold = Some (-1), filter_fn = None\<rparr> 0
     = (([], Inr [\<lparr>document = doc_east, score = 1\<rparr>, \<lparr>document = doc_west, score = -1\<rparr>]), 1)
   \<and> sorted_wrt (\<lambda>a b. score a \<ge> score b)
        [\<lparr>document = doc_east, score = 1\<rparr>, \<lparr>document = doc_west, score = -1\<rparr>]
   \<and> int (length [\<lparr>document = doc_east, score = 1\<rparr>]) \<le> 1"
proof -
  have a: "similaritySearchByVector line_store [1] \<lparr>topK = Some 1, threshold = Some (-1), filter_fn = None\<rparr>
     = ([], Inr [\<lparr>document = doc_east, score = 1\<rparr>])"
    by (rule line_search)
  have b: "similaritySearch unit_provider line_store ''dawn''
        \<lparr>topK = Some 5, threshold = Some (-1), filter_fn = None\<rparr> 0
     = (([], Inr [\<lparr>document = doc_east, score = 1\<rparr>, \<lparr>document = doc_west, score = -1\<rparr>]), 1)"
    by (rule line_search_text)
  from search_results_ranked [OF disjI1, OF a]
  have "int (length [\<lparr>document = doc_east, score = 1\<rparr>]) \<le> 1"
    by (simp add: topK_of_def)
  moreover from search_results_ranked [OF disjI2, OF b]
  have "sorted_wrt (\<lambda>a b. score a \<ge> score b)
        [\<lparr>document = doc_east, score = 1\<rparr>, \<lparr>document = doc_west, score = -1\<rparr>]"
    by blast
  ultimately show ?thesis using a b by blast
qed

text \<open>
  C6. For every threshold \<open>t\<close> given in the options, every result of either search method
  has a score of at least \<open>t\<close>.
\<close>

theorem search_results_above_threshold:
  assumes "threshold options = Some t"
    and "similaritySearchByVector store emb options = (w, Inr rs)
         \<or> similaritySearch prov store query options p = ((w, Inr rs), p')"
  shows "\<forall>r\<in>set rs. score r \<ge> t"
proof -
  have t: "threshold_of options = t"
    using assms(1) by (simp add: threshold_of_def)
  from assms(2) obtain cands where rs: "rs = rank cands (topK_of options)"
    and c: "\<forall>r\<in>set cands. threshold_of options \<le> score r"
    using searchByVector_Inr [of store emb options w rs]
      search_Inr [of prov store query options p w rs p']
    by blast
  from rs have "set rs \<subseteq> set cands"
    using rank_subset by blast
  with c t show ?thesis by blast
qed

theorem search_results_above_threshold_witness:
  "threshold \<lparr>topK = Some 5, threshold = Some (1/2), filter_fn = None :: (string Document \<Rightarrow> bool) option\<rparr> = Some (1/2)
   \<and> similaritySearchByVector line_store [1] \<lparr>topK = Some 5, threshold = Some (1/2), filter_fn = None\<rparr>
     = ([], Inr [\<lparr>document = doc_east, score = 1\<rparr>])
   \<and> score \<lparr>document = doc_east, score = 1\<rparr> \<ge> 1/2"
proof -
  have a: "similaritySearchByVector line_store [1] \<lparr>topK = Some 5, threshold = Some (1/2), filter_fn = None\<rparr>
     = ([], Inr [\<lparr>document = doc_east, score = 1\<rparr>])"
    by (simp add: similaritySearchByVector_def line_store_def map_size_def map_values_def
      threshold_of_def topK_of_def rejected_def doc_east_def doc_west_def cos_1_1 cos_1_m1
      rank_def sort_by_score_def slice0_def)
  have "\<forall>r\<in>set [\<lparr>document = doc_east, score = 1\<rparr>]. score r \<ge> 1/2"
    by (rule search_results_above_threshold [OF _ disjI1, OF _ a]) simp
  then show ?thesis using a by simp
qed

text \<open>
  C3, as amended. With the threshold omitted, both search methods apply the default
  threshold 0: the candidates that are ranked are exactly the documents of the store that
  pass the filter, have an embedding and score at least 0. A document with a negative
  score is not retained.
\<close>

theorem default_threshold_candidates:
  assumes "threshold options = None"
  shows "(similaritySearchByVector store emb options = (w, Inr rs) \<longrightarrow>
      (\<exists>cands. rs = rank cands (topK_of options) \<and>
        (\<forall>r. (r \<in> set cands) =
          (document r \<in> set (getAllDocuments store) \<and> \<not> rejected (filter_fn options) (document r)
           \<and> (\<exists>e. embedding (document r) = Some e \<and> cosineSimilarity emb e = Inr (score r))
           \<and> 0 \<le> score r))))
    \<and> (similaritySearch prov store query options p = ((w, Inr rs), p') \<longrightarrow>
      (\<exists>cands. rs = rank cands (topK_of options) \<and>
        (\<forall>r. (r \<in> set cands) =
          (document r \<in> set (getAllDocuments store) \<and> \<not> rejected (filter_fn options) (document r)
           \<and> (\<exists>q e. generateEmbedding prov store query p = (Inr q, p')
                  \<and> embedding (document r) = Some e \<and> cosineSimilarity q e = Inr (score r))
           \<and> 0 \<le> score r))))"
proof -
  have t: "threshold_of options = 0"
    using assms by (simp add: threshold_of_def)
  show ?thesis
    using searchByVector_Inr [of store emb options w rs]
      search_Inr [of prov store query options p w rs p']
    unfolding t by blast
qed

theorem default_threshold_candidates_witness:
  "threshold (default_options :: string SearchOptions) = None
   \<and> similaritySearchByVector line_store [1] default_options
        = ([], Inr [\<lparr>document = doc_east, score = 1\<rparr>])
   \<and> (\<exists>cands. [\<lparr>document = doc_east, score = 1\<rparr>] = rank cands (topK_of (default_options :: string SearchOptions)) \<and>
        (\<forall>r. (r \<in> set cands) =
          (document r \<in> set (getAllDocuments line_store)
           \<and> \<not> rejected (filter_fn default_options) (document r)
           \<and> (\<exists>e. embedding (document r) = Some e \<and> cosineSimilarity [1] e = Inr (score r))
           \<and> 0 \<le> score r)))"
proof -
  have t: "threshold (default_options :: string SearchOptions) = None"
    by (simp add: default_options_def)
  have a: "similaritySearchByVector line_store [1] default_options
        = ([], Inr [\<lparr>document = doc_east, score = 1\<rparr>])"
    by (simp add: similaritySearchByVector_def line_store_def map_size_def map_values_def
      default_options_def threshold_of_def topK_of_def rejected_def doc_east_def doc_west_def
      cos_1_1 cos_1_m1 rank_def sort_by_score_def slice0_def)
  from default_threshold_candidates [OF t, of line_store "[1]" "[]" "[\<lparr>document = doc_east, score = 1\<rparr>]"] a
  have "\<exists>cands. [\<lparr>document = doc_east, score = 1\<rparr>] = rank cands (topK_of (default_options :: string SearchOptions)) \<and>
        (\<forall>r. (r \<in> set cands) =
          (document r \<in> set (getAllDocuments line_store)
           \<and> \<not> rejected (filter_fn default_options) (document r)
           \<and> (\<exists>e. embedding (document r) = Some e \<and> cosineSimilarity [1] e = Inr (score r))
           \<and> 0 \<le> score r))"
    by (rule conjunct1 [THEN mp])
  with t a show ?thesis by (intro conjI)
qed

text \<open>
  C3 as stated fails: with default options, the document \<open>doc_west\<close> passes the (absent)
  filter and has an embedding, its score against the query is \<open>-1\<close>, and neither the
  candidates of the loop nor the results of either search method hold it.
\<close>

theorem default_threshold_drops_negative_counterexample:
  "threshold (default_options :: string SearchOptions) = None
   \<and> \<not> rejected (filter_fn default_options) doc_west
   \<and> embedding doc_west = Some [-1]
   \<and> cosineSimilarity [1] [-1] = Inr (-1)
   \<and> getAllDocuments line_store = [doc_east, doc_west]
   \<and> score_loop [1] (threshold_of (default_options :: string SearchOptions)) (filter_fn default_options)
        (getAllDocuments line_store) [] [] = ([], Inr [\<lparr>document = doc_east, score = 1\<rparr>])
   \<and> similaritySearchByVector line_store [1] default_options
        = ([], Inr [\<lparr>document = doc_east, score = 1\<rparr>])
   \<and> similaritySearch unit_provider line_store ''dawn'' default_options 0
        = (([], Inr [\<lparr>document = doc_east, score = 1\<rparr>]), 1)"
  by (simp add: similaritySearchByVector_def similaritySearch_def generateEmbedding_def
      unit_provider_def line_store_def map_size_def map_values_def getAllDocuments_def
      default_options_def threshold_of_def topK_of_def rejected_def doc_east_def doc_west_def
      cos_1_1 cos_1_m1 rank_def sort_by_score_def slice0_def)

section \<open>The store under sequences of operations\<close>

lemma line_ops_run: "fst (run unit_provider line_ops (fresh_line_store, 0)) = west_south_store"
  by (simp add: run_def line_ops_def fresh_line_store_def west_south_store_def unit_provider_def
      addDocument_def addDocuments_def generateEmbedding_def deleteDocument_def map_delete_def
      raw_north_def raw_south_def doc_west_def doc_south_def Let_def)

lemma line_config_new: "new_MemoryVectorStore line_config None = Inr fresh_line_store"
  by (simp add: new_MemoryVectorStore_def or_string_def line_config_def fresh_line_store_def)


lemma keys_map_set: "fst ` set (map_set k v m) = insert k (fst ` set m)"
  by (induction k v m rule: map_set.induct) (simp_all add: insert_commute)

lemma distinct_map_set: "distinct (map fst m) \<Longrightarrow> distinct (map fst (map_set k v m))"
  by (induction m) (auto simp: keys_map_set)

lemma set_map_set: "set (map_set k v m) \<subseteq> insert (k, v) (set m)"
  by (induction m) (auto split: if_splits)

lemma map_set_fresh: "k \<notin> fst ` set m \<Longrightarrow> map_set k v m = m @ [(k, v)]"
  by (induction m) auto

lemma set_map_remove: "set (map_remove k m) \<subseteq> set m"
  by (induction m) (auto split: if_splits)

lemma distinct_map_remove: "distinct (map fst m) \<Longrightarrow> distinct (map fst (map_remove k m))"
proof (induction m)
  case Nil
  then show ?case by simp
next
  case (Cons a m)
  have "fst ` set (map_remove k m) \<subseteq> fst ` set m"
    using set_map_remove [of k m] by blast
  with Cons show ?case by (cases a) auto
qed

lemma pairs_ok_set:
  "pairs_ok P store \<Longrightarrow> P (k, v) \<Longrightarrow> pairs_ok P (store\<lparr>documents := map_set k v (documents store)\<rparr>)"
  using set_map_set [of k v "documents store"] distinct_map_set [of "documents store" k v]
  by (auto simp: pairs_ok_def)

lemma pairs_ok_remove:
  "pairs_ok P store \<Longrightarrow> pairs_ok P (store\<lparr>documents := map_remove k (documents store)\<rparr>)"
  using set_map_remove [of k "documents store"] distinct_map_remove [of "documents store" k]
  by (auto simp: pairs_ok_def)

lemma pairs_ok_addDocument:
  assumes "pairs_ok P store" and "provider_ok P prov"
  shows "pairs_ok P (fst (snd (addDocument prov store doc p)))"
proof (cases "prov (embeddingModel store) (content doc) p")
  case (Pair out p')
  show ?thesis
  proof (cases out)
    case (Inl msg)
    with Pair assms(1) show ?thesis
      by (simp add: addDocument_def generateEmbedding_def)
  next
    case (Inr emb)
    with Pair have "P (id_doc doc, \<lparr>id_doc = id_doc doc, content = content doc, metadata = metadata doc,
                           embedding = Some emb\<rparr>)"
      using assms(2) unfolding provider_ok_def by blast
    with Pair Inr assms(1) show ?thesis
      by (simp add: addDocument_def generateEmbedding_def Let_def pairs_ok_set)
  qed
qed

lemma addDocument_dimension:
  "dimension (fst (snd (addDocument prov store doc p))) = dimension store"
  by (simp add: addDocument_def generateEmbedding_def Let_def split: prod.splits sum.splits)

lemma addDocuments_loop_step:
  "addDocuments_loop prov store (doc # rest) acc p =
     (case fst (addDocument prov store doc p) of
        Inl e \<Rightarrow> (Inl e, snd (addDocument prov store doc p))
      | Inr full \<Rightarrow>
          addDocuments_loop prov (fst (snd (addDocument prov store doc p))) rest (acc @ [full])
            (snd (snd (addDocument prov store doc p))))"
  by (cases "addDocument prov store doc p") (auto split: sum.splits)

lemma pairs_ok_addDocuments_loop:
  assumes "provider_ok P prov"
  shows "pairs_ok P store \<Longrightarrow> pairs_ok P (fst (snd (addDocuments_loop prov store docs acc p)))"
proof (induction docs arbitrary: store acc p)
  case Nil
  then show ?case by simp
next
  case (Cons doc rest)
  have ok: "pairs_ok P (fst (snd (addDocument prov store doc p)))"
    using Cons.prems assms by (rule pairs_ok_addDocument)
  show ?case
  proof (cases "fst (addDocument prov store doc p)")
    case (Inl e)
    with ok show ?thesis by (simp only: addDocuments_loop_step) simp
  next
    case (Inr full)
    with Cons.IH [OF ok] show ?thesis by (simp only: addDocuments_loop_step) simp
  qed
qed

lemma addDocuments_loop_dimension:
  "dimension (fst (snd (addDocuments_loop prov store docs acc p))) = dimension store"
proof (induction docs arbitrary: store acc p)
  case Nil
  then show ?case by simp
next
  case (Cons doc rest)
  show ?case
  proof (cases "fst (addDocument prov store doc p)")
    case (Inl e)
    then show ?thesis
      by (simp only: addDocuments_loop_step) (simp add: addDocument_dimension)
  next
    case (Inr full)
    then show ?thesis
      by (simp only: addDocuments_loop_step) (simp add: addDocument_dimension Cons.IH)
  qed
qed

lemma pairs_ok_import:
  "pairs_ok P store \<Longrightarrow> import_ok P (Import docs) \<Longrightarrow> pairs_ok P (snd (import store docs))"
proof (induction docs arbitrary: store)
  case Nil
  then show ?case by simp
next
  case (Cons d docs)
  show ?case
  proof (cases "embedding d")
    case None
    with Cons.prems show ?thesis by simp
  next
    case (Some e)
    with Cons.prems(2) have "P (id_doc d, d)"
      by (simp add: import_ok_def)
    with Cons.prems(1) have "pairs_ok P (store\<lparr>documents := map_set (id_doc d) d (documents store)\<rparr>)"
      by (simp add: pairs_ok_set)
    moreover from Cons.prems(2) have "import_ok P (Import docs)"
      by (simp add: import_ok_def)
    ultimately have "pairs_ok P (snd (import (store\<lparr>documents := map_set (id_doc d) d (documents store)\<rparr>) docs))"
      by (rule Cons.IH)
    with Some show ?thesis by simp
  qed
qed

lemma import_dimension: "dimension (snd (import store docs)) = dimension store"
proof (induction docs arbitrary: store)
  case Nil
  then show ?case by simp
next
  case (Cons d docs)
  then show ?case by (cases "embedding d") simp_all
qed

lemma pairs_ok_apply:
  assumes "provider_ok P prov" and "import_ok P op" and "pairs_ok P (fst sp)"
  shows "pairs_ok P (fst (apply_operation prov op sp))"
proof (cases sp)
  case (Pair store p)
  with assms(3) have ok: "pairs_ok P store" by simp
  show ?thesis
  proof (cases op)
    case (AddDocument doc)
    have "pairs_ok P (fst (snd (addDocument prov store doc p)))"
      using ok assms(1) by (rule pairs_ok_addDocument)
    with Pair AddDocument show ?thesis by simp
  next
    case (AddDocuments docs)
    have "pairs_ok P (fst (snd (addDocuments_loop prov store docs [] p)))"
      using assms(1) ok by (rule pairs_ok_addDocuments_loop)
    with Pair AddDocuments show ?thesis by (simp add: addDocuments_def)
  next
    case (Import docs)
    have "pairs_ok P (snd (import store docs))"
      using ok assms(2) unfolding Import by (rule pairs_ok_import)
    with Pair Import show ?thesis by simp
  next
    case (DeleteDocument i)
    with Pair show ?thesis
      using pairs_ok_remove [of P store i] ok by (simp add: deleteDocument_def map_delete_def)
  next
    case Clear
    with Pair show ?thesis
      by (simp add: clear_def pairs_ok_def)
  qed
qed

lemma apply_dimension: "dimension (fst (apply_operation prov op sp)) = dimension (fst sp)"
proof (cases sp)
  case (Pair store p)
  then show ?thesis
    by (cases op)
       (simp_all add: addDocument_dimension addDocuments_def addDocuments_loop_dimension
          import_dimension deleteDocument_def map_delete_def clear_def)
qed

lemma pairs_ok_run:
  assumes "provider_ok P prov"
  shows "\<forall>op\<in>set ops. import_ok P op \<Longrightarrow> pairs_ok P (fst sp) \<Longrightarrow> pairs_ok P (fst (run prov ops sp))"
proof (induction ops arbitrary: sp)
  case Nil
  then show ?case by (simp add: run_def)
next
  case (Cons op ops)
  from Cons.prems(1) have "import_ok P op" by simp
  with assms have "pairs_ok P (fst (apply_operation prov op sp))"
    using Cons.prems(2) by (rule pairs_ok_apply)
  moreover from Cons.prems(1) have "\<forall>op\<in>set ops. import_ok P op" by simp
  ultimately have "pairs_ok P (fst (run prov ops (apply_operation prov op sp)))"
    using Cons.IH by blast
  then show ?case by (simp add: run_def)
qed

lemma run_dimension: "dimension (fst (run prov ops sp)) = dimension (fst sp)"
proof (induction ops arbitrary: sp)
  case Nil
  then show ?case by (simp add: run_def)
next
  case (Cons op ops)
  have "dimension (fst (run prov ops (apply_operation prov op sp))) = dimension (fst sp)"
    using Cons.IH [of "apply_operation prov op sp"] by (simp add: apply_dimension)
  then show ?case by (simp add: run_def)
qed

lemma new_store_empty:
  "new_MemoryVectorStore cfg env = Inr store \<Longrightarrow> documents store = []"
  by (auto simp: new_MemoryVectorStore_def split: option.splits if_splits)

lemma provider_ok_keyed: "provider_ok keyed_embedded prov"
  by (simp add: provider_ok_def keyed_embedded_def)

lemma import_ok_keyed: "import_ok keyed_embedded op"
  by (simp add: import_ok_def keyed_embedded_def)

lemma run_keyed_embedded:
  assumes "new_MemoryVectorStore cfg env = Inr store0"
  shows "pairs_ok keyed_embedded (fst (run prov ops (store0, p)))"
proof -
  from assms have "documents store0 = []"
    by (rule new_store_empty)
  then have e: "pairs_ok keyed_embedded (fst (store0, p))"
    by (simp add: pairs_ok_def)
  have i: "\<forall>op\<in>set ops. import_ok keyed_embedded op"
    by (simp add: import_ok_keyed)
  show ?thesis
    by (rule pairs_ok_run [OF provider_ok_keyed i e])
qed

lemma import_fresh:
  "distinct (map fst m) \<Longrightarrow> \<forall>kd\<in>set m. keyed_embedded kd \<Longrightarrow>
   fst ` set (documents F) \<inter> fst ` set m = {} \<Longrightarrow>
   import F (map snd m) = (Inr (), F\<lparr>documents := documents F @ m\<rparr>)"
proof (induction m arbitrary: F)
  case Nil
  then show ?case by simp
next
  case (Cons kd m)
  obtain k d where kd: "kd = (k, d)" by (cases kd)
  from Cons.prems(2) kd obtain e where k: "k = id_doc d" and e: "embedding d = Some e"
    by (auto simp: keyed_embedded_def)
  from Cons.prems(3) kd have fresh: "k \<notin> fst ` set (documents F)"
    by auto
  let ?F = "F\<lparr>documents := documents F @ [(k, d)]\<rparr>"
  have "fst ` set (documents ?F) \<inter> fst ` set m = {}"
    using Cons.prems(1,3) kd by auto
  moreover from Cons.prems(1) have "distinct (map fst m)" by simp
  moreover from Cons.prems(2) have "\<forall>kd\<in>set m. keyed_embedded kd" by simp
  ultimately have "import ?F (map snd m) = (Inr (), ?F\<lparr>documents := documents ?F @ m\<rparr>)"
    by (rule Cons.IH [rotated 2])
  with kd k e fresh show ?case
    by (simp add: map_set_fresh)
qed

text \<open>
  C4. For every store reached from a constructed store by a sequence of mutating
  operations, importing its export into a freshly constructed store succeeds and gives a
  store of the same size in which every id is bound to the same document (the same
  content, metadata and embedding), and no other id is bound.
\<close>

theorem import_export_roundtrip:
  assumes "new_MemoryVectorStore cfg env = Inr store0"
    and "store = fst (run prov ops (store0, p))"
    and "new_MemoryVectorStore cfg' env' = Inr fresh"
  shows "fst (import fresh (export store)) = Inr ()
       \<and> size_store (snd (import fresh (export store))) = size_store store
       \<and> (\<forall>i. getDocument (snd (import fresh (export store))) i = getDocument store i)"
proof -
  have inv: "pairs_ok keyed_embedded store"
    unfolding assms(2) using assms(1) by (rule run_keyed_embedded)
  from assms(3) have empty: "documents fresh = []"
    by (rule new_store_empty)
  have "import fresh (map snd (documents store)) =
      (Inr (), fresh\<lparr>documents := documents fresh @ documents store\<rparr>)"
    using inv empty by (intro import_fresh) (simp_all add: pairs_ok_def)
  with empty have "import fresh (export store) = (Inr (), fresh\<lparr>documents := documents store\<rparr>)"
    by (simp add: export_def getAllDocuments_def map_values_def)
  then show ?thesis
    by (simp add: size_store_def getDocument_def)
qed

theorem import_export_roundtrip_witness:
  "new_MemoryVectorStore line_config None = Inr fresh_line_store
   \<and> fst (run unit_provider line_ops (fresh_line_store, 0)) = west_south_store
   \<and> fst (import fresh_line_store (export west_south_store)) = Inr ()
   \<and> size_store (snd (import fresh_line_store (export west_south_store))) = 2
   \<and> getDocument (snd (import fresh_line_store (export west_south_store))) ''west'' = Some doc_west"
proof -
  have s: "size_store west_south_store = 2"
    by (simp add: size_store_def map_size_def west_south_store_def)
  have g: "getDocument west_south_store ''west'' = Some doc_west"
    by (simp add: getDocument_def west_south_store_def)
  from import_export_roundtrip [OF line_config_new line_ops_run [symmetric] line_config_new]
  show ?thesis
    using line_config_new line_ops_run s g by simp
qed

lemma provider_ok_dim: "provider_conforms prov n \<Longrightarrow> provider_ok (has_dim n) prov"
  unfolding provider_conforms_def provider_ok_def has_dim_def has_dimension_def
proof (intro allI impI)
  fix doc :: "'b RawDocument" and emb m t q q'
  assume c: "\<forall>m t q. case fst (prov m t q) of Inl msg \<Rightarrow> True | Inr e \<Rightarrow> length e = n"
    and r: "prov m t q = (Inr emb, q')"
  from c have "case fst (prov m t q) of Inl msg \<Rightarrow> True | Inr e \<Rightarrow> length e = n"
    by blast
  with r show "case embedding (snd (id_doc doc, \<lparr>id_doc = id_doc doc, content = content doc,
        metadata = metadata doc, embedding = Some emb\<rparr>)) of None \<Rightarrow> False | Some e \<Rightarrow> length e = n"
    by simp
qed

lemma import_ok_dim: "import_conforms n op \<Longrightarrow> import_ok (has_dim n) op"
  by (auto simp: import_conforms_def import_ok_def has_dim_def has_dimension_def list_all_iff
      split: option.splits)

text \<open>
  C2, as amended. After any sequence of mutating operations on a constructed store, every
  resident document has an embedding. Its length is the store's dimension provided that
  the provider returns vectors of that length and every imported embedding has that
  length: neither \<^verbatim>\<open>addDocument\<close> nor \<^verbatim>\<open>import\<close> checks the length.
\<close>

theorem embeddings_after_run:
  assumes "new_MemoryVectorStore cfg env = Inr store0"
    and "store = fst (run prov ops (store0, p))"
  shows "all_embedded store
       \<and> (provider_conforms prov (dimension store0) \<and> imports_conform (dimension store0) ops
            \<longrightarrow> all_of_dimension store)"
proof -
  have "pairs_ok keyed_embedded store"
    unfolding assms(2) using assms(1) by (rule run_keyed_embedded)
  then have a: "all_embedded store"
    by (auto simp: all_embedded_def pairs_ok_def keyed_embedded_def getAllDocuments_def
        map_values_def list_all_iff)
  have d: "dimension store = dimension store0"
    unfolding assms(2) using run_dimension [of prov ops "(store0, p)"] by simp
  have "all_of_dimension store"
    if c: "provider_conforms prov (dimension store0)" and i: "imports_conform (dimension store0) ops"
  proof -
    from assms(1) have "documents store0 = []"
      by (rule new_store_empty)
    then have e: "pairs_ok (has_dim (dimension store0)) (fst (store0, p))"
      by (simp add: pairs_ok_def)
    from i have io: "\<forall>op\<in>set ops. import_ok (has_dim (dimension store0)) op"
      by (simp add: imports_conform_def list_all_iff import_ok_dim)
    from c have po: "provider_ok (has_dim (dimension store0)) prov"
      by (rule provider_ok_dim)
    have "pairs_ok (has_dim (dimension store0)) (fst (run prov ops (store0, p)))"
      by (rule pairs_ok_run [OF po io e])
    then show ?thesis
      unfolding assms(2) [symmetric] d [symmetric]
      by (auto simp: all_of_dimension_def pairs_ok_def has_dim_def getAllDocuments_def
          map_values_def list_all_iff)
  qed
  with a show ?thesis by blast
qed

theorem embeddings_after_run_witness:
  "new_MemoryVectorStore line_config None = Inr fresh_line_store
   \<and> provider_conforms unit_provider (dimension fresh_line_store)
   \<and> imports_conform (dimension fresh_line_store) line_ops
   \<and> all_embedded (fst (run unit_provider line_ops (fresh_line_store, 0)))
   \<and> all_of_dimension (fst (run unit_provider line_ops (fresh_line_store, 0)))"
proof -
  have c: "provider_conforms unit_provider (dimension fresh_line_store)"
    by (simp add: provider_conforms_def unit_provider_def fresh_line_store_def)
  have i: "imports_conform (dimension fresh_line_store) line_ops"
    by (simp add: imports_conform_def import_conforms_def line_ops_def fresh_line_store_def
        doc_west_def)
  from embeddings_after_run [OF line_config_new refl, of unit_provider line_ops 0] c i
  show ?thesis
    using line_config_new by simp
qed

text \<open>
  C2 as stated fails: \<^verbatim>\<open>import\<close> does not compare the length of an embedding with the
  dimension. A store constructed with dimension 2 imports a document whose embedding has
  length 1 and holds it.
\<close>

theorem import_ignores_dimension_counterexample:
  "new_MemoryVectorStore \<lparr>apiKey = Some ''key'', embeddingModel_cfg = None, dimension_cfg = Some 2\<rparr> None
     = Inr empty_store
   \<and> fst (run failing_provider [Import [doc_east]] (empty_store, 0))
     = \<lparr>documents = [(''east'', doc_east)], embeddingModel = ''text-embedding-3-small'', dimension = 2\<rparr>
   \<and> embedding doc_east = Some [1]
   \<and> \<not> all_of_dimension (fst (run failing_provider [Import [doc_east]] (empty_store, 0)))"
  by (simp add: new_MemoryVectorStore_def or_string_def empty_store_def run_def doc_east_def
      all_of_dimension_def has_dimension_def getAllDocuments_def map_values_def)

section \<open>Batches\<close>







end
